theory Spec2Isabelle
  imports Complex_Main
begin

section \<open>Fixed-income helpers of AdvancedFixedIncome.py\<close>

text \<open>
  The module works on Python and numpy floats. Here a finite float is a real number and
  every arithmetic operation on finite floats is the exact operation on reals: rounding
  error of the binary format and overflow are not part of this model. What is kept is
  the control flow around the arithmetic: which operations raise, which ones leave the
  finite numbers, truncation to an integer and the rounding to four decimals.
\<close>

subsection \<open>Exceptions and numpy values\<close>

text \<open>
  \<open>IndexError\<close> is what \<open>Series.iloc\<close> raises on a position out of range,
  \<open>ZeroDivisionError\<close> what a division or a negative power of zero raises on Python
  scalars. \<open>ComplexResult\<close> marks a Python power of a negative float with a non-integral
  exponent: Python returns a complex number there, not a float.
\<close>

datatype error = IndexError | ZeroDivisionError | ComplexResult

text \<open>
  A numpy \<open>float64\<close> never raises on a division by zero or on an invalid power: it yields
  \<open>inf\<close>, \<open>-inf\<close> or \<open>nan\<close> with a warning, and these values take part in the arithmetic
  that follows. \<open>PInf\<close>, \<open>NInf\<close> and \<open>NaN\<close> are the three of them.

  A denominator that is zero is read as \<open>+0.0\<close>. The zero denominators of this module are
  the sum \<open>1 + x\<close> at \<open>x = -1\<close>, a positive power of that sum, and a price whose terms
  cancel; IEEE arithmetic gives \<open>+0.0\<close> for each of them. A price that is zero because
  every cash flow is zero may be \<open>-0.0\<close>, but every numerator over it is zero too, and a
  zero over a zero of either sign is \<open>nan\<close>.
\<close>

datatype npfloat = Fin real | PInf | NInf | NaN

text \<open>The infinity with the sign of \<open>s\<close>; \<open>nan\<close> when \<open>s\<close> is zero.\<close>

definition inf_of :: "real \<Rightarrow> npfloat" where
  "inf_of s = (if 0 < s then PInf else if s < 0 then NInf else NaN)"

fun np_add :: "npfloat \<Rightarrow> npfloat \<Rightarrow> npfloat" where
  "np_add (Fin a) (Fin b) = Fin (a + b)"
| "np_add NaN _ = NaN"
| "np_add _ NaN = NaN"
| "np_add PInf NInf = NaN"
| "np_add NInf PInf = NaN"
| "np_add PInf _ = PInf"
| "np_add _ PInf = PInf"
| "np_add NInf _ = NInf"
| "np_add _ NInf = NInf"

fun np_mul :: "npfloat \<Rightarrow> npfloat \<Rightarrow> npfloat" where
  "np_mul (Fin a) (Fin b) = Fin (a * b)"
| "np_mul NaN _ = NaN"
| "np_mul _ NaN = NaN"
| "np_mul (Fin a) PInf = inf_of a"
| "np_mul (Fin a) NInf = inf_of (- a)"
| "np_mul PInf (Fin b) = inf_of b"
| "np_mul NInf (Fin b) = inf_of (- b)"
| "np_mul PInf PInf = PInf"
| "np_mul NInf NInf = PInf"
| "np_mul PInf NInf = NInf"
| "np_mul NInf PInf = NInf"

fun np_div :: "npfloat \<Rightarrow> npfloat \<Rightarrow> npfloat" where
  "np_div (Fin a) (Fin b) = (if b = 0 then inf_of a else Fin (a / b))"
| "np_div NaN _ = NaN"
| "np_div _ NaN = NaN"
| "np_div (Fin a) PInf = Fin 0"
| "np_div (Fin a) NInf = Fin 0"
| "np_div PInf (Fin b) = (if b < 0 then NInf else PInf)"
| "np_div NInf (Fin b) = (if b < 0 then PInf else NInf)"
| "np_div _ _ = NaN"

text \<open>
  \<open>Series.sum()\<close> of pandas: by default (\<open>skipna=True\<close>) the \<open>nan\<close> entries are left
  out and the others are added, infinities included; the sum of no entries is \<open>0.0\<close>.
\<close>

fun is_nan :: "npfloat \<Rightarrow> bool" where
  "is_nan NaN = True"
| "is_nan _ = False"

definition np_sum :: "npfloat list \<Rightarrow> npfloat" where
  "np_sum xs = foldr np_add (filter (\<lambda>x. \<not> is_nan x) xs) (Fin 0)"

text \<open>
  \<open>np.power\<close> on float64: a negative base with an integral exponent has a real power, with
  any other exponent the result is \<open>nan\<close>; zero to a negative exponent is \<open>inf\<close>.
\<close>

definition np_power :: "real \<Rightarrow> real \<Rightarrow> npfloat" where
  "np_power x y =
     (if y = 0 then Fin 1
      else if 0 < x then Fin (x powr y)
      else if x = 0 then (if 0 < y then Fin 0 else PInf)
      else if of_int \<lfloor>y\<rfloor> = y then Fin (x powi \<lfloor>y\<rfloor>)
      else NaN)"

text \<open>
  \<open>rint\<close>: the nearest integer, a tie going to the even neighbour. \<open>np.round(x, d)\<close> is
  computed by numpy as \<open>rint(x * 10**d) / 10**d\<close>.
\<close>

definition rint :: "real \<Rightarrow> int" where
  "rint x =
     (let f = \<lfloor>x\<rfloor>; d = x - of_int f
      in if d < 1 / 2 then f
         else if 1 / 2 < d then f + 1
         else if even f then f else f + 1)"

definition round_to :: "real \<Rightarrow> nat \<Rightarrow> real" where
  "round_to x d = of_int (rint (x * 10 ^ d)) / 10 ^ d"

fun np_round :: "npfloat \<Rightarrow> nat \<Rightarrow> npfloat" where
  "np_round (Fin x) d = Fin (round_to x d)"
| "np_round v d = v"

text \<open>Python's \<open>int(x)\<close> on a float: truncation toward zero.\<close>

definition py_int :: "real \<Rightarrow> int" where
  "py_int x = (if 0 \<le> x then \<lfloor>x\<rfloor> else \<lceil>x\<rceil>)"

text \<open>
  Python's \<open>x ** y\<close> on floats: \<open>x ** 0.0\<close> is \<open>1.0\<close> for every \<open>x\<close>; zero to a negative
  power raises; a negative base gives a float only for an integral exponent.
\<close>

definition py_pow :: "real \<Rightarrow> real \<Rightarrow> error + real" where
  "py_pow x y =
     (if y = 0 then Inr 1
      else if 0 < x then Inr (x powr y)
      else if x = 0 then (if 0 < y then Inr 0 else Inl ZeroDivisionError)
      else if of_int \<lfloor>y\<rfloor> = y then Inr (x powi \<lfloor>y\<rfloor>)
      else Inl ComplexResult)"

subsection \<open>Discount factor and rate conversion\<close>

text \<open>\<open>zc_bond(N, T, r, simple_rate=True)\<close> returns \<open>N/(1+r*T)\<close>.\<close>

definition zc_bond :: "real \<Rightarrow> real \<Rightarrow> real \<Rightarrow> bool \<Rightarrow> error + real" where
  "zc_bond N T r simple_rate =
     (if 1 + r * T = 0 then Inl ZeroDivisionError else Inr (N / (1 + r * T)))"

text \<open>\<open>simple_to_comp\<close>: \<open>((1+simple_rate*t)**(1/(t*freq_per_year))-1)*freq_per_year\<close>.\<close>

definition simple_to_comp :: "real \<Rightarrow> real \<Rightarrow> real \<Rightarrow> error + real" where
  "simple_to_comp simple_rate t freq_per_year =
     (if t * freq_per_year = 0 then Inl ZeroDivisionError
      else case py_pow (1 + simple_rate * t) (1 / (t * freq_per_year)) of
             Inl e \<Rightarrow> Inl e
           | Inr p \<Rightarrow> Inr ((p - 1) * freq_per_year))"

text \<open>\<open>comp_to_simple\<close>: \<open>((1+comp_rate/freq_per_year)**(t*freq_per_year)-1)/t\<close>.\<close>

definition comp_to_simple :: "real \<Rightarrow> real \<Rightarrow> real \<Rightarrow> error + real" where
  "comp_to_simple comp_rate t freq_per_year =
     (if freq_per_year = 0 then Inl ZeroDivisionError
      else case py_pow (1 + comp_rate / freq_per_year) (t * freq_per_year) of
             Inl e \<Rightarrow> Inl e
           | Inr p \<Rightarrow> if t = 0 then Inl ZeroDivisionError else Inr ((p - 1) / t))"

subsection \<open>The cash-flow schedule\<close>

text \<open>
  The three pricing functions build the schedule with the same three statements.
  \<open>coupon_flows\<close> is the list comprehension
  \<open>[cpn_ann*N*(1/freq) for i in range(nbre_payments)]\<close> (empty for a count that is not
  positive), \<open>iloc_last_add\<close> is \<open>CFs.iloc[-1] += N\<close>, which raises on an empty series,
  and \<open>timeline\<close> is \<open>[(i+1)*(1/freq) for i in range(nbre_payments)]\<close>.
\<close>

definition coupon_flows :: "real \<Rightarrow> real \<Rightarrow> real \<Rightarrow> int \<Rightarrow> real list" where
  "coupon_flows N cpn_ann freq nbre_payments =
     map (\<lambda>i. cpn_ann * N * (1 / freq)) [0..<nat nbre_payments]"

definition iloc_last_add :: "real list \<Rightarrow> real \<Rightarrow> error + real list" where
  "iloc_last_add CFs N =
     (if CFs = [] then Inl IndexError
      else Inr (CFs[length CFs - 1 := CFs ! (length CFs - 1) + N]))"

definition timeline :: "real \<Rightarrow> int \<Rightarrow> real list" where
  "timeline freq nbre_payments =
     map (\<lambda>i. (real i + 1) * (1 / freq)) [0..<nat nbre_payments]"

subsection \<open>Price from a curve of zero rates\<close>

text \<open>
  \<open>zc_rates.iloc[i]\<close> raises for a position past the end of the series, which some
  \<open>i\<close> of \<open>range(nbre_payments)\<close> reaches exactly when the series is shorter than the
  count; the positions before it yield floats and raise nothing. Inside
  \<open>bond_s_price\<close> the rate handed to \<open>zc_bond\<close> is a numpy float64, so the division
  \<open>N/(1+r*T)\<close> is numpy's and a zero denominator yields an infinity instead of raising:
  \<open>zc_bond_np\<close> is \<open>zc_bond\<close> on such a rate.
\<close>

definition zc_bond_np :: "real \<Rightarrow> real \<Rightarrow> real \<Rightarrow> bool \<Rightarrow> npfloat" where
  "zc_bond_np N T r simple_rate = np_div (Fin N) (Fin (1 + r * T))"

definition zc_prices :: "real \<Rightarrow> int \<Rightarrow> real list \<Rightarrow> error + npfloat list" where
  "zc_prices freq_per_year nbre_payments zc_rates =
     (if length zc_rates < nat nbre_payments then Inl IndexError
      else Inr (map (\<lambda>i. zc_bond_np 1 ((real i + 1) * (1 / freq_per_year)) (zc_rates ! i) True)
                  [0..<nat nbre_payments]))"

definition bond_s_sum :: "real \<Rightarrow> real \<Rightarrow> real \<Rightarrow> real \<Rightarrow> real list \<Rightarrow> error + npfloat" where
  "bond_s_sum N cpn_ann T freq_per_year zc_rates =
     (let nbre_payments = py_int (T * freq_per_year)
      in case iloc_last_add (coupon_flows N cpn_ann freq_per_year nbre_payments) N of
           Inl e \<Rightarrow> Inl e
         | Inr CFs \<Rightarrow>
             (case zc_prices freq_per_year nbre_payments zc_rates of
                Inl e \<Rightarrow> Inl e
              | Inr ps \<Rightarrow> Inr (np_sum (map2 (\<lambda>c p. np_mul (Fin c) p) CFs ps))))"

definition bond_s_price :: "real \<Rightarrow> real \<Rightarrow> real \<Rightarrow> real \<Rightarrow> real list \<Rightarrow> error + npfloat" where
  "bond_s_price N cpn_ann T freq_per_year zc_rates =
     (case bond_s_sum N cpn_ann T freq_per_year zc_rates of
        Inl e \<Rightarrow> Inl e
      | Inr s \<Rightarrow> Inr (np_round s 4))"

subsection \<open>Bonds, price from a yield, durations\<close>

record bond =
  Nominal :: real
  Tenor :: real
  Annual_Coupon :: real
  Payments_Frequency :: real

definition create_bond :: "real \<Rightarrow> real \<Rightarrow> real \<Rightarrow> real \<Rightarrow> bond" where
  "create_bond N T cpn_ann freq_per_year =
     \<lparr>Nominal = N, Tenor = T, Annual_Coupon = cpn_ann, Payments_Frequency = freq_per_year\<rparr>"

definition bond_c_price :: "bond \<Rightarrow> real \<Rightarrow> error + npfloat" where
  "bond_c_price b yc =
     (let N = Nominal b; T = Tenor b; cpn_ann = Annual_Coupon b; freq = Payments_Frequency b;
          nbre_payments = py_int (T * freq)
      in case iloc_last_add (coupon_flows N cpn_ann freq nbre_payments) N of
           Inl e \<Rightarrow> Inl e
         | Inr CFs \<Rightarrow>
             (let tl = timeline freq nbre_payments
              in Inr (np_sum (map2 (\<lambda>c t. np_div (Fin c) (np_power (1 + yc / freq) (t * freq)))
                                CFs tl))))"

text \<open>
  \<open>macaulay_sum\<close> is the value of \<open>(num/den).sum()\<close> in \<open>macaulay_duration\<close>, before
  \<open>np.round\<close> is applied to it.
\<close>

definition macaulay_sum :: "bond \<Rightarrow> real \<Rightarrow> error + npfloat" where
  "macaulay_sum b yc =
     (let N = Nominal b; T = Tenor b; cpn_ann = Annual_Coupon b; freq = Payments_Frequency b;
          nbre_payments = py_int (T * freq)
      in case iloc_last_add (coupon_flows N cpn_ann freq nbre_payments) N of
           Inl e \<Rightarrow> Inl e
         | Inr CFs \<Rightarrow>
             (let tl = timeline freq nbre_payments;
                  num = map2 (\<lambda>t c. t * exp (- yc * t) * c) tl CFs
              in case bond_c_price b yc of
                   Inl e \<Rightarrow> Inl e
                 | Inr den \<Rightarrow> Inr (np_sum (map (\<lambda>x. np_div (Fin x) den) num))))"

definition macaulay_duration :: "bond \<Rightarrow> real \<Rightarrow> error + npfloat" where
  "macaulay_duration b yc =
     (case macaulay_sum b yc of
        Inl e \<Rightarrow> Inl e
      | Inr s \<Rightarrow> Inr (np_round s 4))"

definition modified_macaulay_duration :: "bond \<Rightarrow> real \<Rightarrow> error + npfloat" where
  "modified_macaulay_duration b yc =
     (let freq = Payments_Frequency b
      in case macaulay_duration b yc of
           Inl e \<Rightarrow> Inl e
         | Inr m \<Rightarrow> Inr (np_round (np_div m (Fin (1 + yc / freq))) 4))"

record stats =
  Price :: npfloat
  Macaulay_Duration :: npfloat
  Modified_Macaulay :: npfloat

definition bond_stats :: "bond \<Rightarrow> real \<Rightarrow> error + stats" where
  "bond_stats b yc =
     (case bond_c_price b yc of
        Inl e \<Rightarrow> Inl e
      | Inr p \<Rightarrow>
          (case macaulay_duration b yc of
             Inl e \<Rightarrow> Inl e
           | Inr m \<Rightarrow>
               (case modified_macaulay_duration b yc of
                  Inl e \<Rightarrow> Inl e
                | Inr md \<Rightarrow>
                    Inr \<lparr>Price = p, Macaulay_Duration = m, Modified_Macaulay = md\<rparr>)))"

subsection \<open>Reference formulas\<close>

text \<open>
  The cash flows after the principal has been added to the last one, in closed form:
  entry \<open>i\<close> of \<open>k\<close> entries.
\<close>

definition flows_closed :: "real \<Rightarrow> real \<Rightarrow> real \<Rightarrow> nat \<Rightarrow> nat \<Rightarrow> real" where
  "flows_closed N cpn_ann freq k i =
     (if Suc i = k then cpn_ann * N * (1 / freq) + N else cpn_ann * N * (1 / freq))"

text \<open>
  The yield-based price in the words of the specification: the sum over the periods of
  \<open>amounts[i] * (1 + yield/frequency)^(-payment_times[i]*frequency)\<close>, the power being
  numpy's and the sum that of a pandas series.
\<close>

definition price_from_yield :: "real list \<Rightarrow> real list \<Rightarrow> real \<Rightarrow> real \<Rightarrow> npfloat" where
  "price_from_yield amounts payment_times frequency yield =
     np_sum (map (\<lambda>i. np_mul (Fin (amounts ! i))
                          (np_power (1 + yield / frequency) (- (payment_times ! i) * frequency)))
               [0..<length amounts])"

text \<open>
  The two sums of the duration over \<open>k\<close> periods as real numbers: the price at a base
  \<open>x = 1 + yc/freq\<close> that is not zero, and the numerator of the duration.
\<close>

definition price_sum :: "real \<Rightarrow> real \<Rightarrow> real \<Rightarrow> nat \<Rightarrow> real \<Rightarrow> real" where
  "price_sum N cpn_ann freq k x = (\<Sum>i<k. flows_closed N cpn_ann freq k i / x ^ Suc i)"

definition weight_sum :: "real \<Rightarrow> real \<Rightarrow> real \<Rightarrow> nat \<Rightarrow> real \<Rightarrow> real" where
  "weight_sum N cpn_ann freq k yc =
     (\<Sum>i<k. (real i + 1) * (1 / freq) * exp (- yc * ((real i + 1) * (1 / freq)))
               * flows_closed N cpn_ann freq k i)"

section \<open>Properties\<close>

subsection \<open>Rounding and truncation\<close>

lemma py_int_small: "0 < x \<Longrightarrow> x < 1 \<Longrightarrow> py_int x = 0"
  by (simp add: py_int_def floor_eq_iff)

lemma py_int_pos_freq: "0 < py_int (T * freq) \<Longrightarrow> freq \<noteq> 0"
  by (auto simp: py_int_def)

subsection \<open>The schedule\<close>

lemma coupon_flows_length: "length (coupon_flows N c f n) = nat n"
  by (simp add: coupon_flows_def)

lemma timeline_length: "length (timeline f n) = nat n"
  by (simp add: timeline_def)

lemma timeline_nth: "i < nat n \<Longrightarrow> timeline f n ! i = (real i + 1) / f"
  by (simp add: timeline_def)

lemma iloc_last_add_flows:
  assumes "0 < n"
  shows "iloc_last_add (coupon_flows N c f n) N = Inr (map (flows_closed N c f (nat n)) [0..<nat n])"
proof -
  have ne: "coupon_flows N c f n \<noteq> []"
    using assms by (simp add: coupon_flows_def)
  have "(coupon_flows N c f n)[nat n - 1 := coupon_flows N c f n ! (nat n - 1) + N]
        = map (flows_closed N c f (nat n)) [0..<nat n]"
    using assms
    by (intro nth_equalityI) (auto simp: coupon_flows_def flows_closed_def nth_list_update)
  then show ?thesis
    using ne by (simp add: iloc_last_add_def coupon_flows_length)
qed

lemma iloc_last_add_empty: "n \<le> 0 \<Longrightarrow> iloc_last_add (coupon_flows N c f n) N = Inl IndexError"
  by (simp add: iloc_last_add_def coupon_flows_def)

text \<open>
  C6. For a bond with positive tenor and frequency the schedule has exactly
  \<open>truncate(tenor * frequency)\<close> entries, the truncation being the floor of the positive
  product; the payment time of period \<open>i\<close> is \<open>(i+1)/frequency\<close>; and when there is at
  least one period, every cash flow is \<open>coupon_rate * face / frequency\<close> and the last one
  has the face value added.
\<close>

theorem cash_flow_schedule:
  assumes "0 < T" and "0 < f" and "n = py_int (T * f)"
  shows "n = \<lfloor>T * f\<rfloor> \<and> int (length (coupon_flows N c f n)) = n
       \<and> int (length (timeline f n)) = n
       \<and> (\<forall>i<nat n. timeline f n ! i = (real i + 1) / f)
       \<and> (\<forall>i<nat n. coupon_flows N c f n ! i = c * N / f)
       \<and> (0 < n \<longrightarrow> (\<exists>CFs. iloc_last_add (coupon_flows N c f n) N = Inr CFs
                \<and> int (length CFs) = n
                \<and> (\<forall>i<nat n. CFs ! i = (if Suc i = nat n then c * N / f + N else c * N / f))))"
proof -
  have fl: "n = \<lfloor>T * f\<rfloor>"
    using assms by (simp add: py_int_def)
  then have n0: "0 \<le> n"
    using assms by simp
  have cf: "\<forall>i<nat n. coupon_flows N c f n ! i = c * N / f"
    by (simp add: coupon_flows_def)
  have last: "\<exists>CFs. iloc_last_add (coupon_flows N c f n) N = Inr CFs \<and> int (length CFs) = n
                \<and> (\<forall>i<nat n. CFs ! i = (if Suc i = nat n then c * N / f + N else c * N / f))"
    if "0 < n"
    using that by (simp add: iloc_last_add_flows flows_closed_def)
  show ?thesis
    using fl n0 cf last by (simp add: coupon_flows_length timeline_length timeline_nth)
qed

lemma sched_eval:
  "py_int (29 / 10 * 1) = 2"
  "timeline 1 2 = [1, 2]"
  "iloc_last_add (coupon_flows 100 (6 / 100) 1 2) 100 = Inr [6, 106]"
  by (simp_all add: py_int_def coupon_flows_def timeline_def iloc_last_add_def nat_numeral
      upt_conv_Cons numeral_2_eq_2)

theorem cash_flow_schedule_witness:
  "(0::real) < 29 / 10 \<and> (0::real) < 1 \<and> py_int (29 / 10 * 1) = 2
   \<and> int (length (coupon_flows 100 (6 / 100) 1 2)) = 2
   \<and> timeline 1 2 = [1, 2]
   \<and> iloc_last_add (coupon_flows 100 (6 / 100) 1 2) 100 = Inr [6, 106]"
proof -
  have h1: "(0::real) < 29 / 10" and h2: "(0::real) < 1"
    by simp_all
  have len: "int (length (coupon_flows 100 (6 / 100) 1 2)) = 2"
    using cash_flow_schedule [OF h1 h2 sched_eval(1) [symmetric], of 100 "6 / 100"]
    by (elim conjE)
  show ?thesis
    using h1 h2 len sched_eval by blast
qed

subsection \<open>Errors on an empty schedule\<close>

lemma bond_c_price_nonpos:
  "py_int (Tenor b * Payments_Frequency b) \<le> 0 \<Longrightarrow> bond_c_price b yc = Inl IndexError"
  by (simp add: bond_c_price_def iloc_last_add_empty)

lemma macaulay_sum_nonpos:
  "py_int (Tenor b * Payments_Frequency b) \<le> 0 \<Longrightarrow> macaulay_sum b yc = Inl IndexError"
  by (simp add: macaulay_sum_def iloc_last_add_empty)

lemma bond_s_sum_nonpos:
  "py_int (T * f) \<le> 0 \<Longrightarrow> bond_s_sum N c T f zc = Inl IndexError"
  by (simp add: bond_s_sum_def iloc_last_add_empty)

text \<open>
  C10. A bond whose product tenor times frequency lies strictly between 0 and 1 has a
  truncated payment count of zero; every pricing and duration operation then raises
  \<open>IndexError\<close> at the access to the last cash flow and returns no value.
\<close>

theorem empty_schedule_raises:
  assumes "0 < Tenor b * Payments_Frequency b" and "Tenor b * Payments_Frequency b < 1"
  shows "bond_c_price b yc = Inl IndexError
       \<and> macaulay_duration b yc = Inl IndexError
       \<and> modified_macaulay_duration b yc = Inl IndexError
       \<and> bond_stats b yc = Inl IndexError
       \<and> bond_s_price (Nominal b) (Annual_Coupon b) (Tenor b) (Payments_Frequency b) zc_rates
           = Inl IndexError"
proof -
  have "py_int (Tenor b * Payments_Frequency b) \<le> 0"
    using py_int_small [OF assms] by simp
  then show ?thesis
    by (simp add: bond_c_price_nonpos macaulay_sum_nonpos bond_s_sum_nonpos
        macaulay_duration_def modified_macaulay_duration_def bond_stats_def bond_s_price_def)
qed

theorem empty_schedule_raises_witness:
  "bond_c_price (create_bond 100 (1 / 4) (6 / 100) 2) (5 / 100) = Inl IndexError
   \<and> macaulay_duration (create_bond 100 (1 / 4) (6 / 100) 2) (5 / 100) = Inl IndexError
   \<and> modified_macaulay_duration (create_bond 100 (1 / 4) (6 / 100) 2) (5 / 100) = Inl IndexError
   \<and> bond_stats (create_bond 100 (1 / 4) (6 / 100) 2) (5 / 100) = Inl IndexError
   \<and> bond_s_price 100 (6 / 100) (1 / 4) 2 [5 / 100] = Inl IndexError"
  using empty_schedule_raises [of "create_bond 100 (1 / 4) (6 / 100) 2" "5 / 100" "[5 / 100]"]
  by (simp add: create_bond_def)

subsection \<open>The discount factor\<close>

text \<open>
  C9. The flag \<open>simple_rate\<close> of \<open>zc_bond\<close> is inert: both values give the same result,
  which is \<open>N/(1+r*T)\<close> whenever the denominator is not zero.
\<close>

theorem zc_bond_flag_inert:
  "zc_bond N T r True = zc_bond N T r False
   \<and> (1 + r * T \<noteq> 0 \<longrightarrow> zc_bond N T r simple_rate = Inr (N / (1 + r * T)))"
  by (simp add: zc_bond_def)

theorem zc_bond_flag_inert_witness:
  "zc_bond 100 2 (5 / 100) True = Inr (100 / (1 + 5 / 100 * 2))
   \<and> zc_bond 100 2 (5 / 100) False = Inr (100 / (1 + 5 / 100 * 2))"
  using zc_bond_flag_inert [of 100 2 "5 / 100" True] zc_bond_flag_inert [of 100 2 "5 / 100" False]
  by simp

subsection \<open>Price from a curve\<close>

lemma curve_eval:
  "bond_s_sum 100 (6 / 100) 2 1 [5 / 100, 55 / 1000]
     = Inr (Fin (6 / (105 / 100) + 106 / (1 + 55 / 1000 * 2)))"
  "bond_s_sum 100 (6 / 100) 2 1 [5 / 100, 55 / 1000, 7 / 100]
     = Inr (Fin (6 / (105 / 100) + 106 / (1 + 55 / 1000 * 2)))"
  "bond_s_sum 100 (6 / 100) 2 1 [5 / 100] = Inl IndexError"
  by (simp_all add: bond_s_sum_def py_int_def coupon_flows_def iloc_last_add_def zc_prices_def
      zc_bond_np_def np_sum_def nat_numeral upt_conv_Cons numeral_2_eq_2)

lemma curve_round: "round_to (6 / (105 / 100) + 106 / (1 + 55 / 1000 * 2)) 4 = 1012098 / 10000"
  by (simp add: round_to_def rint_def)

text \<open>
  C3. For face 100, tenor 2, coupon 0.06, frequency 1 and the zero curve [0.05, 0.055] the
  sum before rounding is \<open>6/1.05 + 106/(1+0.055*2)\<close>, and the value returned, rounded to
  four decimals, is 101.2098.
\<close>

theorem curve_price_example:
  "bond_s_sum 100 (6 / 100) 2 1 [5 / 100, 55 / 1000]
     = Inr (Fin (6 / (105 / 100) + 106 / (1 + 55 / 1000 * 2)))
   \<and> bond_s_price 100 (6 / 100) 2 1 [5 / 100, 55 / 1000] = Inr (Fin (1012098 / 10000))"
  unfolding bond_s_price_def curve_eval
  by (simp only: sum.case np_round.simps curve_round simp_thms)

theorem curve_price_example_counterexample:
  "bond_s_price 100 (6 / 100) 2 1 [5 / 100, 55 / 1000] \<noteq> Inr (Fin (1005134 / 10000))"
  unfolding bond_s_price_def curve_eval
  by (simp only: sum.case np_round.simps curve_round) simp

lemma zc_prices_short:
  "length zc < nat n \<Longrightarrow> zc_prices f n zc = Inl IndexError"
  by (simp add: zc_prices_def)

lemma zc_prices_take:
  "nat n \<le> length zc \<Longrightarrow> zc_prices f n zc = zc_prices f n (take (nat n) zc)"
  by (simp add: zc_prices_def)

lemma zc_prices_Inr:
  "nat n \<le> length zc \<Longrightarrow> \<exists>ps. zc_prices f n zc = Inr ps"
  by (simp add: zc_prices_def)

text \<open>
  C2. When the curve is shorter than the positive payment count, \<open>bond_s_price\<close> raises
  \<open>IndexError\<close>. When it is longer, nothing is raised: a value is returned, and it is the
  value for the curve cut down to its first entries, one per payment.
\<close>

theorem curve_length_mismatch:
  assumes "0 < py_int (T * f)"
  shows "(length zc < nat (py_int (T * f)) \<longrightarrow> bond_s_price N c T f zc = Inl IndexError)
       \<and> (nat (py_int (T * f)) < length zc \<longrightarrow>
            (\<exists>p. bond_s_price N c T f zc = Inr p)
            \<and> bond_s_price N c T f zc = bond_s_price N c T f (take (nat (py_int (T * f))) zc))"
proof -
  obtain CFs where cf: "iloc_last_add (coupon_flows N c f (py_int (T * f))) N = Inr CFs"
    using iloc_last_add_flows [OF assms] by blast
  have short: "bond_s_price N c T f zc = Inl IndexError" if "length zc < nat (py_int (T * f))"
    using that cf by (simp add: bond_s_price_def bond_s_sum_def zc_prices_short)
  have long1: "\<exists>p. bond_s_price N c T f zc = Inr p" if lt: "nat (py_int (T * f)) < length zc"
  proof -
    obtain ps where "zc_prices f (py_int (T * f)) zc = Inr ps"
      using zc_prices_Inr [OF less_imp_le [OF lt], of f] by blast
    then show ?thesis
      using cf by (simp add: bond_s_price_def bond_s_sum_def)
  qed
  have long2: "bond_s_price N c T f zc = bond_s_price N c T f (take (nat (py_int (T * f))) zc)"
    if "nat (py_int (T * f)) < length zc"
    using zc_prices_take [OF less_imp_le [OF that], of f] cf
    by (simp add: bond_s_price_def bond_s_sum_def Let_def)
  show ?thesis
    using short long1 long2 by blast
qed

theorem curve_length_mismatch_witness:
  "bond_s_price 100 (6 / 100) 2 1 [5 / 100] = Inl IndexError
   \<and> bond_s_price 100 (6 / 100) 2 1 [5 / 100, 55 / 1000, 7 / 100]
       = bond_s_price 100 (6 / 100) 2 1 (take 2 [5 / 100, 55 / 1000, 7 / 100])"
proof -
  have n: "py_int (2 * 1) = 2"
    by (simp add: py_int_def)
  then have p: "0 < py_int (2 * 1)"
    by simp
  show ?thesis
    using curve_length_mismatch [OF p, of "[5 / 100]" 100 "6 / 100"]
      curve_length_mismatch [OF p, of "[5 / 100, 55 / 1000, 7 / 100]" 100 "6 / 100"]
    unfolding n by simp
qed

theorem curve_length_mismatch_counterexample:
  "length [5 / 100, 55 / 1000, 7 / 100 :: real] \<noteq> nat (py_int (2 * 1))
   \<and> bond_s_price 100 (6 / 100) 2 1 [5 / 100, 55 / 1000, 7 / 100] = Inr (Fin (1012098 / 10000))"
proof -
  have "py_int (2 * 1) = 2"
    by (simp add: py_int_def)
  then have "length [5 / 100, 55 / 1000, 7 / 100 :: real] \<noteq> nat (py_int (2 * 1))"
    by simp
  moreover have "bond_s_price 100 (6 / 100) 2 1 [5 / 100, 55 / 1000, 7 / 100]
      = Inr (Fin (1012098 / 10000))"
    unfolding bond_s_price_def curve_eval
    by (simp only: sum.case np_round.simps curve_round)
  ultimately show ?thesis
    by (rule conjI)
qed

subsection \<open>Price from a yield\<close>

lemma np_sum_Fin: "np_sum (map (\<lambda>i. Fin (h i)) xs) = Fin (sum_list (map h xs))"
  by (induction xs) (simp_all add: np_sum_def)

lemma sum_list_upt: "sum_list (map h [0..<k]) = (\<Sum>i<k. h i)"
  by (induction k) simp_all

lemma np_power_Suc: "np_power x (real (Suc i)) = Fin (x ^ Suc i)"
proof -
  have "\<lfloor>1 + real i\<rfloor> = int (Suc i)"
    by linarith
  then show ?thesis
    by (simp add: np_power_def powr_realpow flip: of_nat_Suc)
qed

lemma np_div_power_neg:
  "np_div (Fin c) (Fin (x ^ Suc i)) = np_mul (Fin c) (np_power x (- real (Suc i)))"
proof -
  have fl: "\<lfloor>- 1 - real i\<rfloor> = - int (Suc i)"
    by linarith
  consider "0 < x" | "x = 0" | "x < 0"
    by linarith
  then show ?thesis
  proof cases
    case 1
    have "x powr (- real (Suc i)) = inverse (x ^ Suc i)"
      using 1 by (simp only: powr_minus powr_realpow)
    with 1 show ?thesis
      by (simp add: np_power_def divide_inverse del: power_Suc)
  next
    case 2
    then show ?thesis
      by (simp add: np_power_def)
  next
    case 3
    have "x powi (- int (Suc i)) = inverse (x ^ Suc i)"
      by (simp only: power_int_minus power_int_of_nat)
    with 3 fl show ?thesis
      by (simp add: np_power_def divide_inverse del: power_Suc)
  qed
qed

lemma bond_c_price_pos:
  assumes "0 < py_int (Tenor b * Payments_Frequency b)"
  shows "bond_c_price b yc =
    Inr (np_sum (map (\<lambda>i. np_div
          (Fin (flows_closed (Nominal b) (Annual_Coupon b) (Payments_Frequency b)
                 (nat (py_int (Tenor b * Payments_Frequency b))) i))
          (Fin ((1 + yc / Payments_Frequency b) ^ Suc i)))
       [0..<nat (py_int (Tenor b * Payments_Frequency b))]))"
proof -
  have f: "Payments_Frequency b \<noteq> 0"
    using assms by (rule py_int_pos_freq)
  have e: "(real i + 1) * (1 / Payments_Frequency b) * Payments_Frequency b = real (Suc i)" for i
    using f by simp
  show ?thesis
    unfolding bond_c_price_def Let_def iloc_last_add_flows [OF assms] timeline_def
    by (simp only: sum.case map2_map_map e np_power_Suc)
qed

text \<open>
  C5. With \<open>n\<close> payments, \<open>n\<close> positive, \<open>bond_c_price\<close> returns the sum over the periods
  \<open>i < n\<close> of \<open>amounts[i] * (1 + yield/frequency)^(-payment_times[i]*frequency)\<close>, where
  \<open>amounts[i]\<close> is \<open>coupon_rate * face / frequency\<close>, with the face value added for the
  last period, and \<open>payment_times[i]\<close> is \<open>(i+1)/frequency\<close>. The sum is returned as it is:
  no rounding is applied. For a base that is not zero it is a sum of real numbers, the
  discount factor of period \<open>i\<close> being the base to the power \<open>-(i+1)\<close>.
\<close>

theorem yield_price_formula:
  assumes "0 < py_int (Tenor b * Payments_Frequency b)"
  shows "bond_c_price b yc =
      Inr (price_from_yield
        (map (\<lambda>i. if Suc i = nat (py_int (Tenor b * Payments_Frequency b))
                   then Annual_Coupon b * Nominal b / Payments_Frequency b + Nominal b
                   else Annual_Coupon b * Nominal b / Payments_Frequency b)
           [0..<nat (py_int (Tenor b * Payments_Frequency b))])
        (map (\<lambda>i. (real i + 1) / Payments_Frequency b)
           [0..<nat (py_int (Tenor b * Payments_Frequency b))])
        (Payments_Frequency b) yc)
    \<and> (1 + yc / Payments_Frequency b \<noteq> 0 \<longrightarrow>
         bond_c_price b yc = Inr (Fin (\<Sum>i<nat (py_int (Tenor b * Payments_Frequency b)).
           (if Suc i = nat (py_int (Tenor b * Payments_Frequency b))
            then Annual_Coupon b * Nominal b / Payments_Frequency b + Nominal b
            else Annual_Coupon b * Nominal b / Payments_Frequency b)
           * (1 + yc / Payments_Frequency b) powi (- int (Suc i)))))
    \<and> (0 < 1 + yc / Payments_Frequency b \<longrightarrow>
         bond_c_price b yc = Inr (Fin (\<Sum>i<nat (py_int (Tenor b * Payments_Frequency b)).
           (if Suc i = nat (py_int (Tenor b * Payments_Frequency b))
            then Annual_Coupon b * Nominal b / Payments_Frequency b + Nominal b
            else Annual_Coupon b * Nominal b / Payments_Frequency b)
           * (1 + yc / Payments_Frequency b) powr
               (- ((real i + 1) / Payments_Frequency b) * Payments_Frequency b))))"
proof -
  define f where "f = Payments_Frequency b"
  define n where "n = nat (py_int (Tenor b * f))"
  define g where "g = (\<lambda>i. if Suc i = n then Annual_Coupon b * Nominal b / f + Nominal b
                          else Annual_Coupon b * Nominal b / f)"
  define x where "x = 1 + yc / f"
  have f0: "f \<noteq> 0"
    using assms unfolding f_def by (rule py_int_pos_freq)
  have gg: "flows_closed (Nominal b) (Annual_Coupon b) f n = g"
    by (simp add: g_def flows_closed_def fun_eq_iff)
  have pr: "bond_c_price b yc = Inr (np_sum (map (\<lambda>i. np_div (Fin (g i)) (Fin (x ^ Suc i))) [0..<n]))"
    using bond_c_price_pos [OF assms, of yc]
    by (simp only: f_def [symmetric] n_def [symmetric] gg x_def [symmetric])
  have e: "- ((real i + 1) / f) * f = - real (Suc i)" for i
    using f0 by simp
  have pt: "np_mul (Fin (map g [0..<n] ! i))
        (np_power (1 + yc / f) (- (map (\<lambda>i. (real i + 1) / f) [0..<n] ! i) * f))
      = np_div (Fin (g i)) (Fin (x ^ Suc i))" if "i < n" for i
  proof -
    have "map g [0..<n] ! i = g i"
      using that by simp
    moreover have "map (\<lambda>i. (real i + 1) / f) [0..<n] ! i = (real i + 1) / f"
      using that by simp
    ultimately show ?thesis
      by (simp only: e np_div_power_neg x_def)
  qed
  have sp: "price_from_yield (map g [0..<n]) (map (\<lambda>i. (real i + 1) / f) [0..<n]) f yc
      = np_sum (map (\<lambda>i. np_div (Fin (g i)) (Fin (x ^ Suc i))) [0..<n])"
    unfolding price_from_yield_def
  proof (rule arg_cong [where f = np_sum], rule map_cong)
    show "[0..<length (map g [0..<n])] = [0..<n]"
      by simp
  next
    fix i
    assume "i \<in> set [0..<n]"
    then have "i < n"
      by simp
    then show "np_mul (Fin (map g [0..<n] ! i))
        (np_power (1 + yc / f) (- (map (\<lambda>i. (real i + 1) / f) [0..<n] ! i) * f))
      = np_div (Fin (g i)) (Fin (x ^ Suc i))"
      by (rule pt)
  qed
  have nz: "np_sum (map (\<lambda>i. np_div (Fin (g i)) (Fin (x ^ Suc i))) [0..<n])
      = Fin (\<Sum>i<n. g i * x powi (- int (Suc i)))" if "x \<noteq> 0"
  proof -
    have x0: "x ^ Suc i \<noteq> 0" for i
      using that by simp
    have pw: "g i / x ^ Suc i = g i * x powi (- int (Suc i))" for i
      by (simp only: power_int_minus power_int_of_nat divide_inverse)
    have "np_sum (map (\<lambda>i. np_div (Fin (g i)) (Fin (x ^ Suc i))) [0..<n])
        = np_sum (map (\<lambda>i. Fin (g i * x powi (- int (Suc i)))) [0..<n])"
      by (simp only: np_div.simps x0 if_False pw)
    also have "\<dots> = Fin (\<Sum>i<n. g i * x powi (- int (Suc i)))"
      by (simp only: np_sum_Fin sum_list_upt)
    finally show ?thesis .
  qed
  have pos: "np_sum (map (\<lambda>i. np_div (Fin (g i)) (Fin (x ^ Suc i))) [0..<n])
      = Fin (\<Sum>i<n. g i * x powr (- ((real i + 1) / f) * f))" if "0 < x"
  proof -
    have "x powi (- int (Suc i)) = x powr (- ((real i + 1) / f) * f)" for i
      using that by (simp only: e powr_minus powr_realpow power_int_minus power_int_of_nat)
    then show ?thesis
      using nz that by simp
  qed
  have c1: "bond_c_price b yc =
      Inr (price_from_yield (map g [0..<n]) (map (\<lambda>i. (real i + 1) / f) [0..<n]) f yc)"
    by (simp only: pr sp)
  have c2: "x \<noteq> 0 \<longrightarrow> bond_c_price b yc = Inr (Fin (\<Sum>i<n. g i * x powi (- int (Suc i))))"
    using nz by (simp only: pr) blast
  have c3: "0 < x \<longrightarrow>
      bond_c_price b yc = Inr (Fin (\<Sum>i<n. g i * x powr (- ((real i + 1) / f) * f)))"
    using pos by (simp only: pr) blast
  from c1 c2 c3 show ?thesis
    unfolding g_def x_def n_def f_def by blast
qed

lemma py_int_two: "py_int 2 = 2"
  by (simp add: py_int_def)

theorem yield_price_formula_witness:
  "0 < py_int (2 * 1)
   \<and> bond_c_price (create_bond 100 2 (6 / 100) 1) (5 / 100)
        = Inr (Fin (6 / (105 / 100) + 106 / (105 / 100)\<^sup>2))"
proof -
  define B where "B = create_bond 100 2 (6 / 100) 1"
  have sel: "Nominal B = 100" "Tenor B = 2" "Annual_Coupon B = 6 / 100" "Payments_Frequency B = 1"
    by (simp_all add: B_def create_bond_def)
  have h: "0 < py_int (Tenor B * Payments_Frequency B)"
    by (simp add: sel py_int_two)
  have nz: "1 + 5 / 100 / Payments_Frequency B \<noteq> 0"
    by (simp add: sel)
  have "bond_c_price B (5 / 100) = Inr (Fin (6 / (105 / 100) + 106 / (105 / 100)\<^sup>2))"
    using yield_price_formula [OF h, of "5 / 100", THEN conjunct2, THEN conjunct1, rule_format, OF nz]
    by (simp add: sel py_int_two numeral_2_eq_2 power_int_minus power2_eq_square)
  moreover have "0 < py_int (2 * 1)"
    by (simp add: py_int_two)
  ultimately show ?thesis
    unfolding B_def by blast
qed

subsection \<open>The aggregate\<close>

lemma macaulay_sum_Inr: "bond_c_price b yc = Inr p \<Longrightarrow> \<exists>m. macaulay_sum b yc = Inr m"
  by (auto simp: macaulay_sum_def bond_c_price_def Let_def split: sum.splits)

lemma macaulay_Inr: "bond_c_price b yc = Inr p \<Longrightarrow> \<exists>m. macaulay_duration b yc = Inr m"
  using macaulay_sum_Inr [of b yc p] by (auto simp: macaulay_duration_def)

lemma modified_Inr:
  "macaulay_duration b yc = Inr p \<Longrightarrow> \<exists>m. modified_macaulay_duration b yc = Inr m"
  by (auto simp: modified_macaulay_duration_def)

lemma bond_stats_price: "map_sum id Price (bond_stats b yc) = bond_c_price b yc"
proof (cases "bond_c_price b yc")
  case (Inl e)
  then show ?thesis
    by (simp add: bond_stats_def)
next
  case (Inr p)
  then obtain m where m: "macaulay_duration b yc = Inr m"
    using macaulay_Inr by blast
  then obtain md where "modified_macaulay_duration b yc = Inr md"
    using modified_Inr by blast
  with Inr m show ?thesis
    by (simp add: bond_stats_def)
qed

lemma zero_coupon_price: "bond_c_price (create_bond 100 1 0 1) (5 / 100) = Inr (Fin (2000 / 21))"
  by (simp add: bond_c_price_def create_bond_def py_int_def coupon_flows_def iloc_last_add_def
      timeline_def np_power_def np_sum_def)

lemma zero_coupon_price_round: "round_to (2000 / 21) 4 = 952381 / 10000"
  by (simp add: round_to_def rint_def)

text \<open>
  C8. The \<open>Price\<close> field of \<open>bond_stats\<close> is the value of \<open>bond_c_price\<close> as it is, at full
  precision; \<open>bond_stats\<close> raises exactly when \<open>bond_c_price\<close> does.
\<close>

theorem stats_price_unrounded: "map_sum id Price (bond_stats b yc) = bond_c_price b yc"
  by (rule bond_stats_price)

theorem stats_price_unrounded_counterexample:
  "map_sum id Price (bond_stats (create_bond 100 1 0 1) (5 / 100))
     \<noteq> map_sum id (\<lambda>p. np_round p 4) (bond_c_price (create_bond 100 1 0 1) (5 / 100))"
  unfolding bond_stats_price zero_coupon_price
  by (simp add: zero_coupon_price_round)

subsection \<open>Rate conversion\<close>

lemma py_pow_pos: "0 < x \<Longrightarrow> y \<noteq> 0 \<Longrightarrow> py_pow x y = Inr (x powr y)"
  by (simp add: py_pow_def)

lemma py_pow_zero: "0 < y \<Longrightarrow> py_pow 0 y = Inr 0"
  by (simp add: py_pow_def)

lemma py_pow_one: "py_pow x 1 = Inr x"
  by (simp add: py_pow_def)

text \<open>
  C4. For \<open>t * f > 0\<close> and a base \<open>1 + r * t\<close> that is not negative (or any base when
  \<open>t * f = 1\<close>), converting the simple rate \<open>r\<close> to a compounded rate and back returns
  \<open>r\<close>; in real arithmetic the round trip is exact, so it is within every tolerance.
\<close>

theorem rate_round_trip:
  assumes "0 < t * f" and "0 \<le> 1 + r * t \<or> t * f = 1"
  shows "\<exists>c. simple_to_comp r t f = Inr c \<and> comp_to_simple c t f = Inr r"
proof -
  have t0: "t \<noteq> 0" and f0: "f \<noteq> 0"
    using assms(1) by (auto simp: zero_less_mult_iff)
  have e0: "1 / (t * f) \<noteq> 0" and epos: "0 < 1 / (t * f)"
    using assms(1) t0 f0 by simp_all
  consider (pos) "0 < 1 + r * t" | (zero) "1 + r * t = 0" | (one) "t * f = 1"
    using assms(2) by fastforce
  then show ?thesis
  proof cases
    case pos
    define p where "p = (1 + r * t) powr (1 / (t * f))"
    have p0: "0 < p"
      using pos by (simp add: p_def)
    have s: "simple_to_comp r t f = Inr ((p - 1) * f)"
      using t0 f0 by (simp add: simple_to_comp_def py_pow_pos [OF pos e0] p_def)
    have b: "1 + (p - 1) * f / f = p"
      using f0 by simp
    have "p powr (t * f) = (1 + r * t) powr (1 / (t * f) * (t * f))"
      unfolding p_def by (rule powr_powr)
    also have "\<dots> = 1 + r * t"
      using t0 f0 pos by simp
    finally have pp: "p powr (t * f) = 1 + r * t" .
    have "comp_to_simple ((p - 1) * f) t f = Inr r"
      using f0 t0 py_pow_pos [OF p0, of "t * f"]
      by (simp add: comp_to_simple_def b pp)
    with s show ?thesis
      by blast
  next
    case zero
    have s: "simple_to_comp r t f = Inr ((0 - 1) * f)"
      using t0 f0 by (simp add: simple_to_comp_def zero py_pow_zero [OF epos])
    have b: "1 + (0 - 1) * f / f = 0"
      using f0 by simp
    have r: "(0 - 1) / t = r"
      using zero t0 by (simp add: field_simps) 
    have "comp_to_simple ((0 - 1) * f) t f = Inr r"
      using f0 t0 r by (simp only: comp_to_simple_def b py_pow_zero [OF assms(1)] if_False sum.case)
    with s show ?thesis
      by blast
  next
    case one
    have s: "simple_to_comp r t f = Inr ((1 + r * t - 1) * f)"
      by (simp add: simple_to_comp_def one py_pow_one)
    have b: "1 + (1 + r * t - 1) * f / f = 1 + r * t"
      using f0 by simp
    have r: "(1 + r * t - 1) / t = r"
      using t0 by simp
    have "comp_to_simple ((1 + r * t - 1) * f) t f = Inr r"
      using f0 t0 r by (simp only: comp_to_simple_def b one py_pow_one if_False sum.case)
    with s show ?thesis
      by blast
  qed
qed

theorem rate_round_trip_witness:
  "(0::real) < 2 * 2 \<and> (0::real) \<le> 1 + 5 / 100 * 2
   \<and> (\<exists>c. simple_to_comp (5 / 100) 2 2 = Inr c \<and> comp_to_simple c 2 2 = Inr (5 / 100))"
proof -
  have h1: "(0::real) < 2 * 2" and h2: "(0::real) \<le> 1 + 5 / 100 * 2"
    by simp_all
  from h2 have h3: "(0::real) \<le> 1 + 5 / 100 * 2 \<or> (2::real) * 2 = 1"
    by (rule disjI1)
  show ?thesis
    using h1 h2 rate_round_trip [OF h1 h3] by blast
qed

lemma round_trip_eval:
  "simple_to_comp (- 6) (1 / 2) 1 = Inr 3" "comp_to_simple 3 (1 / 2) 1 = Inr 2"
  by (simp_all add: simple_to_comp_def comp_to_simple_def py_pow_def powr_half_sqrt)

theorem rate_round_trip_counterexample:
  "(0::real) < 1 / 2 * 1
   \<and> simple_to_comp (- 6) (1 / 2) 1 = Inr 3 \<and> comp_to_simple 3 (1 / 2) 1 = Inr 2
   \<and> \<not> \<bar>2 - (- 6 :: real)\<bar> \<le> 1 / 10 ^ 9"
  by (simp add: round_trip_eval)

subsection \<open>Rounding\<close>

lemma rint_eq:
  assumes "of_int k - 1 / 2 < x" and "x < of_int k + 1 / 2"
  shows "rint x = k"
proof -
  have "\<lfloor>x\<rfloor> = k \<or> \<lfloor>x\<rfloor> = k - 1"
    using assms by linarith
  then show ?thesis
  proof
    assume "\<lfloor>x\<rfloor> = k"
    moreover have "x - of_int k < 1 / 2" using assms by linarith
    ultimately show ?thesis
      by (simp add: rint_def Let_def)
  next
    assume f: "\<lfloor>x\<rfloor> = k - 1"
    have "1 / 2 < x - of_int (k - 1)" using assms by simp
    with f show ?thesis
      by (simp add: rint_def Let_def)
  qed
qed

lemma rint_of_int: "rint (of_int k) = k"
  by (rule rint_eq) simp_all

lemma rint_bounds: "\<lfloor>x\<rfloor> \<le> rint x \<and> rint x \<le> \<lfloor>x\<rfloor> + 1"
  by (simp add: rint_def Let_def)

lemma rint_mono:
  assumes "x \<le> y"
  shows "rint x \<le> rint y"
proof (cases "\<lfloor>x\<rfloor> = \<lfloor>y\<rfloor>")
  case True
  have "x - of_int \<lfloor>x\<rfloor> \<le> y - of_int \<lfloor>y\<rfloor>"
    using assms True by simp
  then show ?thesis
    using True by (auto simp: rint_def Let_def)
next
  case False
  have "\<lfloor>x\<rfloor> \<le> \<lfloor>y\<rfloor>"
    using assms by (rule floor_mono)
  with False have "\<lfloor>x\<rfloor> + 1 \<le> \<lfloor>y\<rfloor>"
    by simp
  then show ?thesis
    using rint_bounds [of x] rint_bounds [of y] by linarith
qed

lemma round_to_mono: "x \<le> y \<Longrightarrow> round_to x d \<le> round_to y d"
  by (simp add: round_to_def divide_right_mono rint_mono)

lemma round_to_fixed: "round_to (round_to x d) d = round_to x d"
  by (simp add: round_to_def rint_of_int)

lemma round_to_zero: "round_to 0 d = 0"
  by (simp add: round_to_def rint_def)

subsection \<open>Closed forms of price and duration\<close>

lemma bond_c_price_fin:
  assumes "0 < py_int (Tenor b * Payments_Frequency b)"
    and "1 + yc / Payments_Frequency b \<noteq> 0"
  shows "bond_c_price b yc =
    Inr (Fin (price_sum (Nominal b) (Annual_Coupon b) (Payments_Frequency b)
               (nat (py_int (Tenor b * Payments_Frequency b))) (1 + yc / Payments_Frequency b)))"
proof -
  have x0: "(1 + yc / Payments_Frequency b) ^ Suc i \<noteq> 0" for i
    using assms(2) by simp
  show ?thesis
    unfolding bond_c_price_pos [OF assms(1)] price_sum_def
    by (simp only: np_div.simps x0 if_False np_sum_Fin sum_list_upt)
qed

lemma macaulay_sum_fin:
  assumes "0 < py_int (Tenor b * Payments_Frequency b)"
    and "1 + yc / Payments_Frequency b \<noteq> 0"
    and "price_sum (Nominal b) (Annual_Coupon b) (Payments_Frequency b)
               (nat (py_int (Tenor b * Payments_Frequency b))) (1 + yc / Payments_Frequency b) \<noteq> 0"
  shows "macaulay_sum b yc =
    Inr (Fin (weight_sum (Nominal b) (Annual_Coupon b) (Payments_Frequency b)
                (nat (py_int (Tenor b * Payments_Frequency b))) yc
              / price_sum (Nominal b) (Annual_Coupon b) (Payments_Frequency b)
               (nat (py_int (Tenor b * Payments_Frequency b))) (1 + yc / Payments_Frequency b)))"
proof -
  define f where "f = Payments_Frequency b"
  define n where "n = nat (py_int (Tenor b * f))"
  define g where "g = flows_closed (Nominal b) (Annual_Coupon b) f n"
  define P where "P = price_sum (Nominal b) (Annual_Coupon b) f n (1 + yc / f)"
  have num: "map2 (\<lambda>t c. t * exp (- yc * t) * c)
        (map (\<lambda>i. (real i + 1) * (1 / f)) [0..<n]) (map g [0..<n])
      = map (\<lambda>i. (real i + 1) * (1 / f) * exp (- yc * ((real i + 1) * (1 / f))) * g i) [0..<n]"
    by (simp only: map2_map_map)
  have P0: "P \<noteq> 0"
    using assms(3) by (simp add: P_def f_def n_def)
  have "macaulay_sum b yc =
      Inr (np_sum (map (\<lambda>x. np_div (Fin x) (Fin P))
        (map (\<lambda>i. (real i + 1) * (1 / f) * exp (- yc * ((real i + 1) * (1 / f))) * g i) [0..<n])))"
    unfolding macaulay_sum_def Let_def iloc_last_add_flows [OF assms(1)] timeline_def
      bond_c_price_fin [OF assms(1,2)]
    by (simp only: sum.case f_def [symmetric] n_def [symmetric] g_def [symmetric]
        P_def [symmetric] num)
  also have "\<dots> = Inr (Fin (\<Sum>i<n. (real i + 1) * (1 / f)
        * exp (- yc * ((real i + 1) * (1 / f))) * g i / P))"
    by (simp only: map_map comp_def np_div.simps P0 if_False np_sum_Fin sum_list_upt)
  finally show ?thesis
    by (simp only: weight_sum_def sum_divide_distrib f_def n_def g_def P_def)
qed

subsection \<open>Bounds on the duration before rounding\<close>

lemma flows_closed_pos:
  "0 < N \<Longrightarrow> 0 < c \<Longrightarrow> 0 < f \<Longrightarrow> 0 < flows_closed N c f k i"
  by (simp add: flows_closed_def add_pos_pos)

lemma price_sum_pos:
  assumes "0 < N" "0 < c" "0 < f" "0 < k" "0 < x"
  shows "0 < price_sum N c f k x"
  unfolding price_sum_def
proof (rule sum_pos)
  show "finite {..<k}" by simp
  show "{..<k} \<noteq> {}" using assms(4) by auto
  fix i
  show "0 < flows_closed N c f k i / x ^ Suc i"
    using flows_closed_pos [OF assms(1-3)] assms(5) by simp
qed

lemma exp_decay:
  assumes "0 < u"
  shows "exp (- (u * real (Suc i))) < 1 / (1 + u) ^ Suc i"
proof -
  have "1 + u + u\<^sup>2 / 2 \<le> exp u"
    using assms by (intro exp_lower_Taylor_quadratic) simp
  moreover have "0 < u\<^sup>2 / 2"
    using assms by simp
  ultimately have lt: "1 + u < exp u"
    by linarith
  have "(1 + u) ^ Suc i < exp u ^ Suc i"
    using lt assms by (intro power_strict_mono) simp_all
  also have "\<dots> = exp (u * real (Suc i))"
    by (simp only: exp_of_nat_mult [symmetric] mult.commute)
  finally have "(1 + u) ^ Suc i < exp (u * real (Suc i))" .
  moreover have "0 < (1 + u) ^ Suc i"
    using assms by simp
  ultimately have "inverse (exp (u * real (Suc i))) < inverse ((1 + u) ^ Suc i)"
    by (simp only: inverse_less_iff_less exp_gt_zero)
  then show ?thesis
    by (simp only: exp_minus inverse_eq_divide)
qed

lemma weight_sum_pos:
  assumes "0 < N" "0 < c" "0 < f" "0 < k"
  shows "0 < weight_sum N c f k yc"
  unfolding weight_sum_def
proof (rule sum_pos)
  show "finite {..<k}" by simp
  show "{..<k} \<noteq> {}" using assms(4) by auto
  fix i
  have "0 < real i + 1" and "0 < 1 / f"
    using assms(3) by simp_all
  then show "0 < (real i + 1) * (1 / f) * exp (- yc * ((real i + 1) * (1 / f)))
      * flows_closed N c f k i"
    using flows_closed_pos [OF assms(1-3), of k i] by (intro mult_pos_pos exp_gt_zero)
qed

lemma weight_sum_less:
  assumes "0 < N" "0 < c" "0 < f" "0 < k" "0 < yc"
  shows "weight_sum N c f k yc < real k / f * price_sum N c f k (1 + yc / f)"
proof -
  have u: "0 < yc / f"
    using assms by simp
  have tm: "(real i + 1) * (1 / f) * exp (- yc * ((real i + 1) * (1 / f)))
        * flows_closed N c f k i
      < real k / f * (flows_closed N c f k i / (1 + yc / f) ^ Suc i)" if "i \<in> {..<k}" for i
  proof -
    have g: "0 < flows_closed N c f k i"
      using assms(1-3) by (rule flows_closed_pos)
    have a: "(real i + 1) * (1 / f) \<le> real k / f"
      using that assms(3) by (simp add: divide_right_mono)
    have a0: "0 < (real i + 1) * (1 / f)"
      using assms(3) by simp
    have eq: "- yc * ((real i + 1) * (1 / f)) = - (yc / f * real (Suc i))"
      by simp
    have e: "exp (- yc * ((real i + 1) * (1 / f))) < 1 / (1 + yc / f) ^ Suc i"
      unfolding eq by (rule exp_decay [OF u])
    have "(real i + 1) * (1 / f) * exp (- yc * ((real i + 1) * (1 / f)))
        < real k / f * (1 / (1 + yc / f) ^ Suc i)"
      using a a0 e by (intro mult_le_less_imp_less) simp_all
    then have "(real i + 1) * (1 / f) * exp (- yc * ((real i + 1) * (1 / f))) * flows_closed N c f k i
        < real k / f * (1 / (1 + yc / f) ^ Suc i) * flows_closed N c f k i"
      using g by (simp only: mult_less_cancel_right_pos)
    then show ?thesis
      by (simp add: mult.commute mult.left_commute del: power_Suc of_nat_Suc)
  qed
  have "weight_sum N c f k yc < (\<Sum>i<k. real k / f * (flows_closed N c f k i / (1 + yc / f) ^ Suc i))"
    unfolding weight_sum_def
    using assms(4) tm by (intro sum_strict_mono) auto
  then show ?thesis
    by (simp only: price_sum_def sum_distrib_left)
qed

lemma py_int_le: "0 < f \<Longrightarrow> 0 < py_int (T * f) \<Longrightarrow> real (nat (py_int (T * f))) / f \<le> T"
proof -
  assume f: "0 < f" and n: "0 < py_int (T * f)"
  have "0 \<le> T * f"
  proof (rule ccontr)
    assume neg: "\<not> 0 \<le> T * f"
    then have "\<lceil>T * f\<rceil> \<le> 0"
      by (simp add: ceiling_le_iff)
    with neg n show False
      by (simp add: py_int_def)
  qed
  then have "real_of_int (py_int (T * f)) \<le> T * f"
    by (simp add: py_int_def)
  then have "real (nat (py_int (T * f))) \<le> T * f"
    using n by simp
  then show ?thesis
    using f by (simp add: pos_divide_le_eq)
qed

text \<open>
  C7. For a bond with positive face value, coupon rate and frequency, at least one
  payment and a positive yield, the duration before rounding is positive and below the
  tenor. After rounding to four decimals, \<open>macaulay_duration\<close> is at most the tenor
  rounded to four decimals, and \<open>modified_macaulay_duration\<close> is at most
  \<open>macaulay_duration\<close>.
\<close>

theorem duration_bounds:
  assumes "0 < Nominal b" and "0 < Annual_Coupon b" and "0 < Payments_Frequency b"
    and "0 < py_int (Tenor b * Payments_Frequency b)" and "0 < yc"
  shows "\<exists>d m md. macaulay_sum b yc = Inr (Fin d) \<and> 0 < d \<and> d < Tenor b
      \<and> macaulay_duration b yc = Inr (Fin m) \<and> m = round_to d 4
      \<and> 0 \<le> m \<and> m \<le> round_to (Tenor b) 4
      \<and> modified_macaulay_duration b yc = Inr (Fin md) \<and> md \<le> m"
proof -
  define f where "f = Payments_Frequency b"
  define n where "n = nat (py_int (Tenor b * f))"
  define P where "P = price_sum (Nominal b) (Annual_Coupon b) f n (1 + yc / f)"
  define W where "W = weight_sum (Nominal b) (Annual_Coupon b) f n yc"
  define m where "m = round_to (W / P) 4"
  have f0: "0 < f" and n0: "0 < n"
    using assms(3,4) by (simp_all add: f_def n_def)
  have x1: "1 < 1 + yc / f"
    using assms(5) f0 by simp
  then have x0: "1 + yc / f \<noteq> 0" and xp: "0 < 1 + yc / f"
    by simp_all
  have Pp: "0 < P"
    unfolding P_def using assms(1,2) f0 n0 xp by (rule price_sum_pos)
  have Wp: "0 < W"
    unfolding W_def using assms(1,2) f0 n0 by (rule weight_sum_pos)
  have "W < real n / f * P"
    unfolding W_def P_def using assms(1,2) f0 n0 assms(5) by (rule weight_sum_less)
  then have "W / P < real n / f"
    using Pp by (simp add: pos_divide_less_eq)
  moreover have "real n / f \<le> Tenor b"
    unfolding n_def using f0 assms(4) unfolding f_def by (rule py_int_le)
  ultimately have dT: "W / P < Tenor b"
    by simp
  have dp: "0 < W / P"
    using Wp Pp by simp
  have s: "macaulay_sum b yc = Inr (Fin (W / P))"
    using macaulay_sum_fin [OF assms(4), of yc] x0 Pp
    by (simp add: f_def n_def P_def W_def)
  then have md: "macaulay_duration b yc = Inr (Fin m)"
    by (simp add: macaulay_duration_def m_def)
  have m0: "0 \<le> m"
    using round_to_mono [of 0 "W / P" 4] dp by (simp add: m_def round_to_zero)
  have mT: "m \<le> round_to (Tenor b) 4"
    unfolding m_def using dT by (intro round_to_mono) simp
  have "m / (1 + yc / f) \<le> m / 1"
    using m0 x1 by (intro divide_left_mono) simp_all
  then have "m / (1 + yc / f) \<le> m"
    by simp
  then have "round_to (m / (1 + yc / f)) 4 \<le> round_to m 4"
    by (rule round_to_mono)
  then have mm: "round_to (m / (1 + yc / f)) 4 \<le> m"
    by (simp add: m_def round_to_fixed)
  have mo: "modified_macaulay_duration b yc = Inr (Fin (round_to (m / (1 + yc / f)) 4))"
    using md x0 by (simp add: modified_macaulay_duration_def f_def)
  show ?thesis
    using s dp dT md m0 mT mo mm unfolding m_def by blast
qed

theorem duration_bounds_witness:
  "(0::real) < 100 \<and> (0::real) < 6 / 100 \<and> (0::real) < 1 \<and> 0 < py_int (2 * 1)
   \<and> (0::real) < 5 / 100
   \<and> (\<exists>d m md. macaulay_sum (create_bond 100 2 (6 / 100) 1) (5 / 100) = Inr (Fin d)
         \<and> 0 < d \<and> d < 2
         \<and> macaulay_duration (create_bond 100 2 (6 / 100) 1) (5 / 100) = Inr (Fin m)
         \<and> m \<le> round_to 2 4
         \<and> modified_macaulay_duration (create_bond 100 2 (6 / 100) 1) (5 / 100) = Inr (Fin md)
         \<and> md \<le> m)"
proof -
  define B where "B = create_bond 100 2 (6 / 100) 1"
  have sel: "Nominal B = 100" "Tenor B = 2" "Annual_Coupon B = 6 / 100" "Payments_Frequency B = 1"
    by (simp_all add: B_def create_bond_def)
  have h1: "0 < Nominal B" and h2: "0 < Annual_Coupon B" and h3: "0 < Payments_Frequency B"
    and h4: "0 < py_int (Tenor B * Payments_Frequency B)" and h5: "(0::real) < 5 / 100"
    by (simp_all add: sel py_int_two)
  have p: "0 < py_int (2 * 1)"
    by (simp add: py_int_two)
  note w = duration_bounds [OF h1 h2 h3 h4 h5, unfolded sel]
  from w p show ?thesis
    unfolding B_def by auto
qed

text \<open>
  Face 100, tenor 2/3, coupon rate 0.000003, three payments a year, yield 0.000003: the
  duration before rounding lies between 0.66665 and 2/3 and is rounded up to 0.6667, above
  the tenor; the modified duration is rounded to the same 0.6667.
\<close>

theorem duration_bounds_counterexample:
  "macaulay_duration (create_bond 100 (2 / 3) (3 / 10 ^ 6) 3) (3 / 10 ^ 6) = Inr (Fin (6667 / 10000))
   \<and> modified_macaulay_duration (create_bond 100 (2 / 3) (3 / 10 ^ 6) 3) (3 / 10 ^ 6)
       = Inr (Fin (6667 / 10000))
   \<and> \<not> 6667 / 10000 \<le> Tenor (create_bond 100 (2 / 3) (3 / 10 ^ 6) 3)"
proof -
  define B where "B = create_bond 100 (2 / 3) (3 / 10 ^ 6) 3"
  define E0 :: real where "E0 = exp (- (1 / 10 ^ 6))"
  define E1 :: real where "E1 = exp (- (2 / 10 ^ 6))"
  have sel: "Nominal B = 100" "Tenor B = 2 / 3" "Annual_Coupon B = 3 / 10 ^ 6"
    "Payments_Frequency B = 3"
    by (simp_all add: B_def create_bond_def)
  have h1: "0 < py_int (Tenor B * Payments_Frequency B)"
    by (simp add: sel py_int_two)
  have h2: "1 + 3 / 10 ^ 6 / Payments_Frequency B \<noteq> 0"
    by (simp add: sel)
  have P: "price_sum (Nominal B) (Annual_Coupon B) (Payments_Frequency B)
      (nat (py_int (Tenor B * Payments_Frequency B))) (1 + 3 / 10 ^ 6 / Payments_Frequency B)
      = 1 / 10 ^ 4 / (1 + 1 / 10 ^ 6) + (100 + 1 / 10 ^ 4) / (1 + 1 / 10 ^ 6)\<^sup>2"
    by (simp add: sel py_int_two price_sum_def flows_closed_def numeral_2_eq_2 power2_eq_square)
  have W: "weight_sum (Nominal B) (Annual_Coupon B) (Payments_Frequency B)
      (nat (py_int (Tenor B * Payments_Frequency B))) (3 / 10 ^ 6)
      = 1 / 3 * E0 * (1 / 10 ^ 4) + 2 / 3 * E1 * (100 + 1 / 10 ^ 4)"
    by (simp add: sel py_int_two weight_sum_def flows_closed_def numeral_2_eq_2 E0_def E1_def)
  define Pv :: real where "Pv = 1 / 10 ^ 4 / (1 + 1 / 10 ^ 6) + (100 + 1 / 10 ^ 4) / (1 + 1 / 10 ^ 6)\<^sup>2"
  define Wv :: real where "Wv = 1 / 3 * E0 * (1 / 10 ^ 4) + 2 / 3 * E1 * (100 + 1 / 10 ^ 4)"
  have Pv_lo: "99999999 / 1000000 < Pv" and Pv_hi: "Pv < 100000001 / 1000000"
    by (simp_all add: Pv_def power2_eq_square)
  have h3: "price_sum (Nominal B) (Annual_Coupon B) (Payments_Frequency B)
      (nat (py_int (Tenor B * Payments_Frequency B))) (1 + 3 / 10 ^ 6 / Payments_Frequency B) \<noteq> 0"
    unfolding P using Pv_lo by (simp add: Pv_def)
  have s: "macaulay_sum B (3 / 10 ^ 6) = Inr (Fin (Wv / Pv))"
    using macaulay_sum_fin [OF h1 h2 h3] unfolding P W Pv_def Wv_def .
  have E0b: "0 < E0" "E0 < 1"
    by (simp_all add: E0_def)
  have E1b: "1 - 2 / 10 ^ 6 \<le> E1" "E1 < 1"
    using exp_ge_add_one_self [of "- (2 / 10 ^ 6) :: real"] by (simp_all add: E1_def)
  have Wv_eq: "Wv = E0 / 30000 + E1 * (1000001 / 15000)"
    by (simp add: Wv_def)
  have E1lo: "999998 / 1000000 \<le> E1"
    using E1b(1) by simp
  have Wlo: "666661 / 10000 < Wv"
    using E0b E1lo unfolding Wv_eq by linarith
  have Whi: "Wv < 666668 / 10000"
    using E0b E1b(2) unfolding Wv_eq by linarith
  have "66665 / 100000 * Pv < Wv"
    using Wlo Pv_hi by linarith
  then have dlo: "66665 / 100000 < Wv / Pv"
    using Pv_lo by (simp add: pos_less_divide_eq)
  have "Wv < 66675 / 100000 * Pv"
    using Whi Pv_lo by linarith
  then have dhi: "Wv / Pv < 66675 / 100000"
    using Pv_lo by (simp add: pos_divide_less_eq)
  define d where "d = Wv / Pv"
  have "66665 / 100000 < d" and "d < 66675 / 100000"
    using dlo dhi by (simp_all only: d_def)
  then have "rint (d * 10 ^ 4) = 6667"
    by (intro rint_eq) simp_all
  then have "round_to d 4 = 6667 / 10000"
    by (simp add: round_to_def)
  then have r: "round_to (Wv / Pv) 4 = 6667 / 10000"
    by (simp only: d_def)
  have m: "macaulay_duration B (3 / 10 ^ 6) = Inr (Fin (6667 / 10000))"
    using s r by (simp add: macaulay_duration_def)
  have "round_to (6667 / 10000 / (1 + 3 / 10 ^ 6 / 3)) 4 = 6667 / 10000"
    by (simp add: round_to_def rint_def)
  then have md: "modified_macaulay_duration B (3 / 10 ^ 6) = Inr (Fin (6667 / 10000))"
    using m by (simp add: modified_macaulay_duration_def sel)
  have "\<not> 6667 / 10000 \<le> Tenor B"
    by (simp add: sel)
  with m md show ?thesis
    unfolding B_def by blast
qed

subsection \<open>The zero-coupon bond\<close>

lemma exp_twentieth_bounds: "841 / 800 \<le> exp (1 / 20 :: real) \<and> exp (1 / 20 :: real) \<le> 16821 / 16000"
proof
  have "1 + (1 / 20) + (1 / 20)\<^sup>2 / 2 \<le> exp (1 / 20 :: real)"
    by (rule exp_lower_Taylor_quadratic) simp
  then show "841 / 800 \<le> exp (1 / 20 :: real)"
    by (simp add: power2_eq_square)
next
  obtain t :: real where t: "\<bar>t\<bar> \<le> \<bar>1 / 20\<bar>"
    and e: "exp (1 / 20) = (\<Sum>m<3. (1 / 20) ^ m / fact m) + exp t / fact 3 * (1 / 20) ^ 3"
    using Maclaurin_exp_le [of "1 / 20" 3] by blast
  have "t \<le> 1"
    using t by simp
  then have "exp t \<le> exp 1"
    by simp
  then have t3: "exp t \<le> 3"
    using exp_le by linarith
  have "(\<Sum>m<3. (1 / 20 :: real) ^ m / fact m) = 841 / 800"
    by (simp add: numeral_3_eq_3 power2_eq_square)
  then have "exp (1 / 20 :: real) = 841 / 800 + exp t / 6 * (1 / 8000)"
    using e by (simp add: fact_numeral power3_eq_cube)
  then show "exp (1 / 20 :: real) \<le> 16821 / 16000"
    using t3 by simp
qed

lemma py_int_one: "py_int 1 = 1"
  by (simp add: py_int_def)

text \<open>
  C1. For the zero-coupon bond with face 100, tenor 1, coupon rate 0 and one payment a
  year, at the yield 0.05, \<open>macaulay_duration\<close> returns 0.9988 and not the time 1 of the
  single payment: the numerator discounts with \<open>exp(-yc*t)\<close>, the price in the
  denominator with \<open>(1+yc/freq)**(t*freq)\<close>, and the two do not cancel.
\<close>

theorem zero_coupon_duration_example:
  "macaulay_duration (create_bond 100 1 0 1) (5 / 100) = Inr (Fin (9988 / 10000))"
proof -
  define B where "B = create_bond 100 1 0 1"
  have sel: "Nominal B = 100" "Tenor B = 1" "Annual_Coupon B = 0" "Payments_Frequency B = 1"
    by (simp_all add: B_def create_bond_def)
  have h1: "0 < py_int (Tenor B * Payments_Frequency B)"
    by (simp add: sel py_int_one)
  have h2: "1 + 5 / 100 / Payments_Frequency B \<noteq> 0"
    by (simp add: sel)
  have P: "price_sum (Nominal B) (Annual_Coupon B) (Payments_Frequency B)
      (nat (py_int (Tenor B * Payments_Frequency B))) (1 + 5 / 100 / Payments_Frequency B)
      = 2000 / 21"
    by (simp add: sel py_int_one price_sum_def flows_closed_def)
  have W: "weight_sum (Nominal B) (Annual_Coupon B) (Payments_Frequency B)
      (nat (py_int (Tenor B * Payments_Frequency B))) (5 / 100)
      = 100 * inverse (exp (1 / 20))"
    by (simp add: sel py_int_one weight_sum_def flows_closed_def exp_minus)
  have h3: "price_sum (Nominal B) (Annual_Coupon B) (Payments_Frequency B)
      (nat (py_int (Tenor B * Payments_Frequency B))) (1 + 5 / 100 / Payments_Frequency B) \<noteq> 0"
    unfolding P by simp
  have s: "macaulay_sum B (5 / 100) = Inr (Fin (100 * inverse (exp (1 / 20)) / (2000 / 21)))"
    using macaulay_sum_fin [OF h1 h2 h3] unfolding P W .
  have lo: "inverse (16821 / 16000) \<le> inverse (exp (1 / 20 :: real))"
    using exp_twentieth_bounds by (intro le_imp_inverse_le) simp_all
  have hi: "inverse (exp (1 / 20 :: real)) \<le> inverse (841 / 800)"
    using exp_twentieth_bounds by (intro le_imp_inverse_le) simp_all
  have "rint (100 * inverse (exp (1 / 20)) / (2000 / 21) * 10 ^ 4) = 9988"
    using lo hi by (intro rint_eq) simp_all
  then have "round_to (100 * inverse (exp (1 / 20)) / (2000 / 21)) 4 = 9988 / 10000"
    by (simp add: round_to_def)
  then show ?thesis
    using s by (simp add: macaulay_duration_def B_def)
qed

subsection \<open>Values outside the finite numbers\<close>

text \<open>
  A base \<open>1 + yc/freq\<close> of zero and a zero rate denominator: the infinities are summed, a
  \<open>nan\<close> entry (zero times or over an infinity or a zero) is left out of the sum, and a
  finite numerator over an infinite price is zero.
\<close>

lemma nonfinite_examples:
  "bond_c_price (create_bond 0 2 (6 / 100) 1) (- 1) = Inr (Fin 0)"
  "bond_c_price (create_bond 100 2 (6 / 100) 1) (- 1) = Inr PInf"
  "bond_s_price 100 0 2 1 [- 1, 1 / 10] = Inr (Fin (833333 / 10000))"
  "bond_s_price 100 (6 / 100) 2 1 [- 1, 1 / 10] = Inr PInf"
  by (simp_all add: bond_c_price_def bond_s_price_def bond_s_sum_def create_bond_def py_int_def
      coupon_flows_def iloc_last_add_def timeline_def zc_prices_def zc_bond_np_def np_power_def
      np_sum_def inf_of_def round_to_def rint_def nat_numeral upt_conv_Cons numeral_2_eq_2)

lemma macaulay_base_zero:
  "macaulay_duration (create_bond 100 2 (6 / 100) 1) (- 1) = Inr (Fin 0)"
  "modified_macaulay_duration (create_bond 100 2 (6 / 100) 1) (- 1) = Inr NaN"
  by (simp_all add: modified_macaulay_duration_def macaulay_duration_def macaulay_sum_def bond_c_price_def create_bond_def py_int_def
      coupon_flows_def iloc_last_add_def timeline_def np_power_def
      np_sum_def inf_of_def round_to_def rint_def nat_numeral upt_conv_Cons numeral_2_eq_2)

end
